theory Spec2Isabelle
  imports
    Complex_Main
    "HOL-Library.Sublist"
    "HOL-Library.Char_ord"
    "HOL-Library.List_Lexorder"
    "HOL-Library.Product_Lexorder"
begin

section \<open>Notes, note collections, chords and the chord registry of \<open>notes.py\<close>\<close>

text \<open>
  The embedding follows \<open>src/notes.py\<close> function by function.

  \<^item> Python strings are \<open>string\<close>; the model covers ASCII text, where a character is one
    code point and \<open>str.capitalize\<close> only touches \<open>a\<close>-\<open>z\<close> and \<open>A\<close>-\<open>Z\<close>.
  \<^item> \<open>get_index\<close> returns an \<open>int\<close> or a \<open>float\<close> that is an integer plus or minus
    \<open>0.5\<close>; these values are exact in binary floating point and Python compares an
    \<open>int\<close> with a \<open>float\<close> by value, so the index is a \<open>rat\<close>.
  \<^item> Every \<open>raise\<close> is a value \<open>Inl e\<close> of a sum type; a method that mutates its object
    returns the outcome together with the object's new contents.
  \<^item> Python's built-in \<open>hash\<close> (salted per process for strings) is not code of the
    repository; it is the parameter \<open>h\<close> of everything that hashes a Note.
  \<^item> Notes are values: object identity is not modelled. CPython's lists and sets test
    \<open>item is el\<close> before they call \<open>item == el\<close>; the functions below always call
    \<open>__eq__\<close>, as CPython does for two distinct objects. For a Note whose \<open>get_index\<close>
    returns, \<open>n == n\<close> is \<open>True\<close>, so the shortcut cannot be observed. It can be
    observed only for a Note with the empty name, whose \<open>get_index\<close> raises
    \<open>IndexError\<close>: there the outcome (an error or \<open>True\<close>) depends on whether the two
    operands are one object. The theorems on \<open>NoteCollection\<close> speak of the list of
    notes, which is the same in both cases, and the theorems on \<open>Chords.add\<close> assume
    non-empty names.
\<close>

subsection \<open>Errors\<close>

datatype error = IndexError | DuplicateNoteNamesException | ChordOverlapException

subsection \<open>Strings: \<open>string.ascii_uppercase\<close>, \<open>str.find\<close>, \<open>str.capitalize\<close>, \<open>in\<close>\<close>

definition ascii_uppercase :: string where
  "ascii_uppercase = ''ABCDEFGHIJKLMNOPQRSTUVWXYZ''"

definition ascii_lowercase :: string where
  "ascii_lowercase = ''abcdefghijklmnopqrstuvwxyz''"

text \<open>\<open>s.find(c)\<close> for a one-character \<open>c\<close>: the least index of \<open>c\<close> in \<open>s\<close>, or \<open>-1\<close>.\<close>

fun str_find :: "string \<Rightarrow> char \<Rightarrow> int" where
  "str_find [] c = -1"
| "str_find (x # xs) c =
     (if x = c then 0 else (let r = str_find xs c in if r < 0 then -1 else r + 1))"

definition upper_char :: "char \<Rightarrow> char" where
  "upper_char c = (case map_of (zip ascii_lowercase ascii_uppercase) c of
                     Some u \<Rightarrow> u | None \<Rightarrow> c)"

definition lower_char :: "char \<Rightarrow> char" where
  "lower_char c = (case map_of (zip ascii_uppercase ascii_lowercase) c of
                     Some l \<Rightarrow> l | None \<Rightarrow> c)"

text \<open>\<open>s.capitalize()\<close>: the first character upper-cased, the others lower-cased.\<close>

definition capitalize :: "string \<Rightarrow> string" where
  "capitalize s = (case s of [] \<Rightarrow> [] | c # cs \<Rightarrow> upper_char c # map lower_char cs)"

text \<open>\<open>sub in s\<close> on strings: \<open>sub\<close> occurs in \<open>s\<close> as a contiguous block.\<close>

fun startswith :: "string \<Rightarrow> string \<Rightarrow> bool" where
  "startswith s [] = True"
| "startswith [] (p # ps) = False"
| "startswith (c # cs) (p # ps) = (c = p \<and> startswith cs ps)"

fun str_in :: "string \<Rightarrow> string \<Rightarrow> bool" where
  "str_in sub [] = (sub = [])"
| "str_in sub (c # cs) = (startswith (c # cs) sub \<or> str_in sub cs)"

subsection \<open>Class \<open>Note\<close>\<close>

record Note =
  "note" :: string
  sharpness :: string

text \<open>\<open>Note.__init__\<close>: the whole capitalised input is the name; the sharpness is set to
  the empty string.\<close>

definition Note_init :: "string \<Rightarrow> Note" where
  "Note_init s = \<lparr>note = capitalize s, sharpness = ''''\<rparr>"

text \<open>\<open>Note.get_index\<close>. \<open>self.note[0]\<close> raises \<open>IndexError\<close> on the empty name. The wrap
  \<open>position += 26\<close> is inside the branch for names longer than one character.\<close>

definition get_index :: "Note \<Rightarrow> error + rat" where
  "get_index self =
     (case note self of
        [] \<Rightarrow> Inl IndexError
      | c # cs \<Rightarrow>
          (let position = of_int (str_find ascii_uppercase c) in
           if length (note self) > 1 then
             (let position =
                (if note self ! 1 = CHR ''#'' then position + 1 / 2
                 else if note self ! 1 = CHR ''b'' then position - 1 / 2
                 else position)
              in Inr (if position < 0 then position + 26 else position))
           else Inr position))"

text \<open>\<open>Note.__eq__\<close> on two Notes (the \<open>isinstance\<close> test holds by typing): both indices
  are computed, then \<open>self.sharpness in other.sharpness\<close>.\<close>

definition note_eq :: "Note \<Rightarrow> Note \<Rightarrow> error + bool" where
  "note_eq self other =
     (case get_index self of
        Inl e \<Rightarrow> Inl e
      | Inr i \<Rightarrow>
          (case get_index other of
             Inl e \<Rightarrow> Inl e
           | Inr j \<Rightarrow> Inr (i = j \<and> str_in (sharpness self) (sharpness other))))"

text \<open>\<open>Note.__hash__\<close>: the built-in hash \<open>h\<close> of the pair \<open>(self.note, self.sharpness)\<close>.\<close>

type_synonym hashfn = "string \<times> string \<Rightarrow> int"

definition note_hash :: "hashfn \<Rightarrow> Note \<Rightarrow> int" where
  "note_hash h self = h (note self, sharpness self)"

text \<open>The pair that \<open>__hash__\<close> hashes.\<close>

definition hash_key :: "Note \<Rightarrow> string \<times> string" where
  "hash_key n = (note n, sharpness n)"

subsection \<open>Class \<open>NoteCollection\<close>\<close>

text \<open>A NoteCollection has the single attribute \<open>notes\<close>, a list of Notes, and is
  modelled by that list.\<close>

type_synonym NoteCollection = "Note list"

text \<open>\<open>el in items\<close> on a list of Notes: \<open>item == el\<close> for the items in order, the item
  on the left, until one is equal.\<close>

fun list_contains :: "Note list \<Rightarrow> Note \<Rightarrow> error + bool" where
  "list_contains [] el = Inr False"
| "list_contains (item # items) el =
     (case note_eq item el of
        Inl e \<Rightarrow> Inl e
      | Inr True \<Rightarrow> Inr True
      | Inr False \<Rightarrow> list_contains items el)"

text \<open>\<open>NoteCollection.add\<close>. The argument is a Note by typing, so \<open>TypeError\<close> is not
  raised.\<close>

definition NoteCollection_add ::
  "NoteCollection \<Rightarrow> Note \<Rightarrow> (error + unit) \<times> NoteCollection" where
  "NoteCollection_add self n =
     (case list_contains self n of
        Inl e \<Rightarrow> (Inl e, self)
      | Inr True \<Rightarrow> (Inr (), self)
      | Inr False \<Rightarrow> (Inr (), self @ [n]))"

text \<open>\<open>NoteCollection.pop\<close>: the first Note \<open>n\<close> with \<open>n == Note(name)\<close> is removed and
  returned.\<close>

fun NoteCollection_pop ::
  "NoteCollection \<Rightarrow> string \<Rightarrow> (error + Note option) \<times> NoteCollection" where
  "NoteCollection_pop [] name = (Inr None, [])"
| "NoteCollection_pop (n # ns) name =
     (case note_eq n (Note_init name) of
        Inl e \<Rightarrow> (Inl e, n # ns)
      | Inr True \<Rightarrow> (Inr (Some n), ns)
      | Inr False \<Rightarrow> (case NoteCollection_pop ns name of (r, ns') \<Rightarrow> (r, n # ns')))"

text \<open>\<open>NoteCollection.extract\<close>: returns a copy of the list and clears the collection.\<close>

definition NoteCollection_extract :: "NoteCollection \<Rightarrow> Note list \<times> NoteCollection" where
  "NoteCollection_extract self = (self, [])"

subsection \<open>Class \<open>Chord\<close>\<close>

record Chord =
  "notes" :: "Note list"
  chord_name :: string

text \<open>\<open>Chord.__init__\<close>. A Note object is truthy, so \<open>if note_three\<close> tests whether the
  third note was given. The names compared are the \<open>note\<close> attributes, and the chord name
  is compared as a whole string. \<open>sorted\<close> is stable, as \<open>sort_key\<close> is.\<close>

definition Chord_init :: "Note \<Rightarrow> Note \<Rightarrow> string \<Rightarrow> Note option \<Rightarrow> error + Chord" where
  "Chord_init note_one note_two name note_three =
     (let note_list = (case note_three of
                         Some n3 \<Rightarrow> [note_one, note_two, n3]
                       | None \<Rightarrow> [note_one, note_two]);
          note_names = map note note_list
      in if card (set note_names) \<noteq> length note_list
            \<or> card (set (note_names @ [name])) \<noteq> length note_names + 1
         then Inl DuplicateNoteNamesException
         else Inr \<lparr>notes = sort_key (\<lambda>x. (note x, sharpness x)) note_list,
                   chord_name = name\<rparr>)"

subsection \<open>Python sets of Notes\<close>

text \<open>
  A \<open>set\<close> of Notes is a hash table. Looking a key up compares the stored hash of an
  entry with the hash of the key first and calls \<open>entry == key\<close> only when the hashes are
  equal; entries with the same hash lie on one probe sequence in the order of their
  insertion. The table is modelled by the list of its entries in insertion order.
\<close>

fun set_lookkey :: "hashfn \<Rightarrow> Note list \<Rightarrow> Note \<Rightarrow> error + bool" where
  "set_lookkey h [] key = Inr False"
| "set_lookkey h (entry # table) key =
     (if note_hash h entry = note_hash h key then
        (case note_eq entry key of
           Inl e \<Rightarrow> Inl e
         | Inr True \<Rightarrow> Inr True
         | Inr False \<Rightarrow> set_lookkey h table key)
      else set_lookkey h table key)"

text \<open>\<open>set(xs)\<close>: the elements are added in order, each unless it is found already.\<close>

fun set_update :: "hashfn \<Rightarrow> Note list \<Rightarrow> Note list \<Rightarrow> error + Note list" where
  "set_update h so [] = Inr so"
| "set_update h so (x # xs) =
     (case set_lookkey h so x of
        Inl e \<Rightarrow> Inl e
      | Inr True \<Rightarrow> set_update h so xs
      | Inr False \<Rightarrow> set_update h (so @ [x]) xs)"

definition py_set :: "hashfn \<Rightarrow> Note list \<Rightarrow> error + Note list" where
  "py_set h xs = set_update h [] xs"

text \<open>\<open>v == w\<close> on sets: equal sizes, and every element of \<open>v\<close> is found in \<open>w\<close>.
  CPython walks \<open>v\<close> in the order of its slots; the list order stands for it. The result
  depends on that order only when a comparison raises.\<close>

fun set_issubset :: "hashfn \<Rightarrow> Note list \<Rightarrow> Note list \<Rightarrow> error + bool" where
  "set_issubset h [] other = Inr True"
| "set_issubset h (key # so) other =
     (case set_lookkey h other key of
        Inl e \<Rightarrow> Inl e
      | Inr False \<Rightarrow> Inr False
      | Inr True \<Rightarrow> set_issubset h so other)"

definition set_eq :: "hashfn \<Rightarrow> Note list \<Rightarrow> Note list \<Rightarrow> error + bool" where
  "set_eq h v w = (if length v \<noteq> length w then Inr False else set_issubset h v w)"

text \<open>\<open>set(xs) == set(ys)\<close>: the left set is built first.\<close>

definition notes_set_eq :: "hashfn \<Rightarrow> Note list \<Rightarrow> Note list \<Rightarrow> error + bool" where
  "notes_set_eq h xs ys =
     (case py_set h xs of
        Inl e \<Rightarrow> Inl e
      | Inr v \<Rightarrow> (case py_set h ys of Inl e \<Rightarrow> Inl e | Inr w \<Rightarrow> set_eq h v w))"

text \<open>\<open>Chord.__eq__\<close> on two Chords.\<close>

definition chord_eq :: "hashfn \<Rightarrow> Chord \<Rightarrow> Chord \<Rightarrow> error + bool" where
  "chord_eq h self other = notes_set_eq h (notes self) (notes other)"

subsection \<open>Class \<open>Chords\<close>\<close>

text \<open>The registry has the single attribute \<open>chords\<close>, a list of Chords.\<close>

type_synonym Chords = "Chord list"

text \<open>The loop of \<open>Chords.add\<close>: the first existing chord whose set of notes equals the
  new chord's raises \<open>ChordOverlapException\<close>.\<close>

fun add_scan :: "hashfn \<Rightarrow> Chord list \<Rightarrow> Chord \<Rightarrow> error + unit" where
  "add_scan h [] chord = Inr ()"
| "add_scan h (existing_chord # rest) chord =
     (case notes_set_eq h (notes existing_chord) (notes chord) of
        Inl e \<Rightarrow> Inl e
      | Inr True \<Rightarrow> Inl ChordOverlapException
      | Inr False \<Rightarrow> add_scan h rest chord)"

definition Chords_add :: "hashfn \<Rightarrow> Chords \<Rightarrow> Chord \<Rightarrow> (error + unit) \<times> Chords" where
  "Chords_add h self chord =
     (case add_scan h self chord of
        Inl e \<Rightarrow> (Inl e, self)
      | Inr u \<Rightarrow> (Inr (), self @ [chord]))"

text \<open>\<open>Chords.get\<close>. The sets compared are sets of strings, \<open>note + sharpness\<close> of each
  Note; hash and equality of strings agree, so they are HOL sets.\<close>

definition note_names_set :: "Note list \<Rightarrow> string set" where
  "note_names_set ns = set (map (\<lambda>n. note n @ sharpness n) ns)"

fun get_scan :: "Chord list \<Rightarrow> string set \<Rightarrow> Chord option" where
  "get_scan [] input_note_names_set = None"
| "get_scan (chord # rest) input_note_names_set =
     (if input_note_names_set = note_names_set (notes chord) then Some chord
      else get_scan rest input_note_names_set)"

definition Chords_get :: "Chords \<Rightarrow> Note \<Rightarrow> Note \<Rightarrow> Note option \<Rightarrow> Chord option" where
  "Chords_get self first_note second_note third_note =
     (let input_notes = (case third_note of
                           Some n3 \<Rightarrow> [first_note, second_note, n3]
                         | None \<Rightarrow> [first_note, second_note])
      in get_scan self (note_names_set input_notes))"

subsection \<open>Notes whose sharpness is the empty string\<close>

definition unaltered :: "Note list \<Rightarrow> bool" where
  "unaltered ns = list_all (\<lambda>n. sharpness n = '''') ns"

section \<open>The pitch index\<close>

lemma str_find_nth:
  "distinct xs \<Longrightarrow> i < length xs \<Longrightarrow> str_find xs (xs ! i) = int i"
proof (induction xs arbitrary: i)
  case Nil
  then show ?case by simp
next
  case (Cons x xs)
  show ?case
  proof (cases i)
    case 0
    then show ?thesis by simp
  next
    case (Suc k)
    with Cons.prems have k: "k < length xs" and ne: "xs ! k \<noteq> x" and d: "distinct xs"
      by auto
    from Cons.IH [OF d k] have "str_find xs (xs ! k) = int k" .
    with Suc ne show ?thesis by (simp add: Let_def)
  qed
qed

lemma distinct_ascii_uppercase: "distinct ascii_uppercase" "length ascii_uppercase = 26"
  by (simp_all add: ascii_uppercase_def)

lemma upper_char_uppercase_all: "\<forall>c\<in>set ascii_uppercase. upper_char c = c"
  by (simp add: upper_char_def ascii_uppercase_def ascii_lowercase_def)

lemma upper_char_uppercase: "c \<in> set ascii_uppercase \<Longrightarrow> upper_char c = c"
  using upper_char_uppercase_all by blast

lemma lower_char_alteration:
  "lower_char CHR ''#'' = CHR ''#''" "lower_char CHR ''b'' = CHR ''b''"
  by (simp_all add: lower_char_def ascii_uppercase_def ascii_lowercase_def)

text \<open>The index of the Note built from the \<open>i\<close>-th letter alone, with \<open>#\<close> and with
  \<open>b\<close>.\<close>

lemma get_index_letter:
  assumes "i < 26"
  shows "get_index (Note_init [ascii_uppercase ! i]) = Inr (of_nat i)"
    and "get_index (Note_init [ascii_uppercase ! i, CHR ''#'']) = Inr (of_nat i + 1 / 2)"
    and "get_index (Note_init [ascii_uppercase ! i, CHR ''b'']) =
           Inr (if i = 0 then 51 / 2 else of_nat i - 1 / 2)"
proof -
  define c where "c = ascii_uppercase ! i"
  from assms have "c \<in> set ascii_uppercase"
    by (simp add: c_def distinct_ascii_uppercase)
  then have up: "upper_char c = c"
    by (rule upper_char_uppercase)
  from assms have pos: "str_find ascii_uppercase c = int i"
    by (simp add: c_def str_find_nth distinct_ascii_uppercase)
  have "get_index (Note_init [c]) = Inr (of_nat i)"
    by (simp add: get_index_def Note_init_def capitalize_def up pos)
  then show "get_index (Note_init [ascii_uppercase ! i]) = Inr (of_nat i)"
    by (simp only: c_def)
  have "get_index (Note_init [c, CHR ''#'']) = Inr (of_nat i + 1 / 2)"
    by (simp add: get_index_def Note_init_def capitalize_def up pos lower_char_alteration)
  then show "get_index (Note_init [ascii_uppercase ! i, CHR ''#'']) = Inr (of_nat i + 1 / 2)"
    by (simp only: c_def)
  have "get_index (Note_init [c, CHR ''b'']) = Inr (if i = 0 then 51 / 2 else of_nat i - 1 / 2)"
    by (cases i)
      (simp_all add: get_index_def Note_init_def capitalize_def up pos lower_char_alteration)
  then show "get_index (Note_init [ascii_uppercase ! i, CHR ''b'']) =
           Inr (if i = 0 then 51 / 2 else of_nat i - 1 / 2)"
    by (simp only: c_def)
qed

text \<open>
  Claim C7. For each of the 26 letters and each alteration among the empty string, \<open>#\<close>
  and \<open>b\<close>, \<open>get_index\<close> of the Note built from the letter followed by the alteration
  returns (it does not raise) and the index lies in the half-open interval from 0 to 26.
\<close>

theorem get_index_range:
  assumes "i < 26" and "alt \<in> {'''', ''#'', ''b''}"
  shows "\<exists>p. get_index (Note_init (ascii_uppercase ! i # alt)) = Inr p \<and> 0 \<le> p \<and> p < 26"
proof -
  from assms(1) have le: "(of_nat i :: rat) \<le> 25" by simp
  from assms(2) consider "alt = ''''" | "alt = ''#''" | "alt = ''b''" by auto
  then show ?thesis
  proof cases
    case 1
    from le show ?thesis
      unfolding 1 get_index_letter(1) [OF assms(1)] by (intro exI [of _ "of_nat i"]) simp
  next
    case 2
    from le show ?thesis
      unfolding 2 get_index_letter(2) [OF assms(1)]
      by (intro exI [of _ "of_nat i + 1 / 2"]) simp
  next
    case 3
    show ?thesis
    proof (cases "i = 0")
      case True
      have "get_index (Note_init [ascii_uppercase ! i, CHR ''b'']) = Inr (51 / 2)"
        using get_index_letter(3) [OF assms(1)] True by simp
      then show ?thesis
        unfolding 3 by (intro exI [of _ "51 / 2"]) simp
    next
      case False
      then have ge: "(1::rat) \<le> of_nat i" by (cases i) simp_all
      have "get_index (Note_init [ascii_uppercase ! i, CHR ''b'']) = Inr (of_nat i - 1 / 2)"
        using get_index_letter(3) [OF assms(1)] False by simp
      with le ge show ?thesis
        unfolding 3 by (intro exI [of _ "of_nat i - 1 / 2"]) simp
    qed
  qed
qed

theorem get_index_range_witness:
  "(0::nat) < 26 \<and> ''b'' \<in> {'''', ''#'', ''b''} \<and>
   (\<exists>p. get_index (Note_init ''Ab'') = Inr p \<and> 0 \<le> p \<and> p < 26)"
  using get_index_range [of 0 "''b''"] by (simp add: ascii_uppercase_def)

text \<open>
  Claim C6. For every letter, the Note built from the letter with \<open>#\<close> and the Note built
  from the next letter (cyclically, \<open>A\<close> after \<open>Z\<close>) with \<open>b\<close> have the same index, the
  position of the letter plus one half. This covers \<open>A#\<close> and \<open>Bb\<close>, and the wrap case
  \<open>Z#\<close> and \<open>Ab\<close>.
\<close>

theorem enharmonic_index:
  assumes "i < 26"
  shows "get_index (Note_init [ascii_uppercase ! i, CHR ''#'']) = Inr (of_nat i + 1 / 2) \<and>
         get_index (Note_init [ascii_uppercase ! ((i + 1) mod 26), CHR ''b'']) =
           Inr (of_nat i + 1 / 2)"
proof (cases "i = 25")
  case True
  have "get_index (Note_init [ascii_uppercase ! ((i + 1) mod 26), CHR ''b'']) = Inr (51 / 2)"
    using get_index_letter(3) [of 0] True by simp
  with True show ?thesis
    using get_index_letter(2) [OF assms] by simp
next
  case False
  with assms have j: "i + 1 < 26" and m: "(i + 1) mod 26 = i + 1"
    by simp_all
  have "get_index (Note_init [ascii_uppercase ! ((i + 1) mod 26), CHR ''b'']) =
          Inr (of_nat (i + 1) - 1 / 2)"
    unfolding m using get_index_letter(3) [OF j] by simp
  then show ?thesis
    using get_index_letter(2) [OF assms] by simp
qed

theorem enharmonic_index_witness:
  "(25::nat) < 26 \<and> (0::nat) < 26 \<and>
   get_index (Note_init ''Z#'') = Inr (51 / 2) \<and> get_index (Note_init ''Ab'') = Inr (51 / 2) \<and>
   get_index (Note_init ''A#'') = Inr (1 / 2) \<and> get_index (Note_init ''Bb'') = Inr (1 / 2)"
proof -
  have l: "ascii_uppercase ! 25 = CHR ''Z''" "ascii_uppercase ! ((25 + 1) mod 26) = CHR ''A''"
    "ascii_uppercase ! 0 = CHR ''A''" "ascii_uppercase ! ((0 + 1) mod 26) = CHR ''B''"
    by (simp_all add: ascii_uppercase_def)
  have r: "of_nat 25 + 1 / 2 = (51 / 2 :: rat)" "of_nat 0 + 1 / 2 = (1 / 2 :: rat)"
    by simp_all
  show ?thesis
    using enharmonic_index [of 25] enharmonic_index [of 0] unfolding l r by simp
qed

section \<open>Equality and hash of Notes\<close>

lemma startswith_prefix: "startswith s p \<longleftrightarrow> prefix p s"
  by (induction s p rule: startswith.induct) auto

lemma str_in_sublist: "str_in sub s \<longleftrightarrow> sublist sub s"
  by (induction s) (simp_all add: startswith_prefix sublist_Cons_right)

lemma str_in_iff: "str_in sub s \<longleftrightarrow> (\<exists>ps ss. s = ps @ sub @ ss)"
  by (simp add: str_in_sublist sublist_def)

lemma str_in_Nil [simp]: "str_in [] s"
  by (simp add: str_in_sublist)

lemma str_in_refl [simp]: "str_in s s"
  by (simp add: str_in_sublist)

lemma str_in_trans: "str_in a b \<Longrightarrow> str_in b c \<Longrightarrow> str_in a c"
  unfolding str_in_sublist by (rule sublist_order.order_trans)

lemma note_eq_True_iff:
  "note_eq x y = Inr True \<longleftrightarrow>
     (\<exists>p. get_index x = Inr p \<and> get_index y = Inr p) \<and> str_in (sharpness x) (sharpness y)"
  by (auto simp: note_eq_def split: sum.splits)

lemma note_eq_cases:
  "note_eq x y = Inl e \<longleftrightarrow>
     get_index x = Inl e \<or> ((\<exists>p. get_index x = Inr p) \<and> get_index y = Inl e)"
  by (auto simp: note_eq_def split: sum.splits)

lemma Note_init_simps: "note (Note_init s) = capitalize s" "sharpness (Note_init s) = ''''"
  by (simp_all add: Note_init_def)

text \<open>
  Claim C2, as stated, asks for the alteration of the argument \<open>y\<close> to be contained in
  the alteration of the receiver \<open>x\<close>. The code tests \<open>self.sharpness in other.sharpness\<close>,
  the other direction. With \<open>x\<close> the Note \<open>A\<close> with empty sharpness and \<open>y\<close> the Note \<open>A\<close>
  with sharpness \<open>#\<close>, both indices are 0 and \<open>x == y\<close> is \<open>True\<close> although \<open>#\<close> is not
  contained in the empty string; and \<open>y == x\<close> is \<open>False\<close> although the empty string is
  contained in \<open>#\<close>.
\<close>

theorem note_eq_containment_counterexample:
  "note_eq \<lparr>note = ''A'', sharpness = ''''\<rparr> \<lparr>note = ''A'', sharpness = ''#''\<rparr> = Inr True \<and>
   get_index \<lparr>note = ''A'', sharpness = ''''\<rparr> = Inr 0 \<and>
   get_index \<lparr>note = ''A'', sharpness = ''#''\<rparr> = Inr 0 \<and>
   \<not> str_in (sharpness \<lparr>note = ''A'', sharpness = ''#''\<rparr>)
            (sharpness \<lparr>note = ''A'', sharpness = ''''\<rparr>) \<and>
   note_eq \<lparr>note = ''A'', sharpness = ''#''\<rparr> \<lparr>note = ''A'', sharpness = ''''\<rparr> = Inr False"
  by (simp add: note_eq_def get_index_def ascii_uppercase_def)

text \<open>
  Claim C2, amended. \<open>x == y\<close> returns \<open>True\<close> if and only if both indices are computed
  and equal and the sharpness of the receiver \<open>x\<close> occurs in the sharpness of the argument
  \<open>y\<close> as a contiguous block.
\<close>

theorem note_eq_spec:
  "note_eq x y = Inr True \<longleftrightarrow>
     (\<exists>p. get_index x = Inr p \<and> get_index y = Inr p) \<and>
     (\<exists>ps ss. sharpness y = ps @ sharpness x @ ss)"
proof -
  have eq: "note_eq x y = Inr True \<longleftrightarrow>
     (\<exists>p. get_index x = Inr p \<and> get_index y = Inr p) \<and> str_in (sharpness x) (sharpness y)"
    by (rule note_eq_True_iff)
  have sub: "str_in (sharpness x) (sharpness y) \<longleftrightarrow>
     (\<exists>ps ss. sharpness y = ps @ sharpness x @ ss)"
    by (rule str_in_iff)
  show ?thesis
    unfolding eq sub ..
qed

text \<open>
  Claim C3. \<open>Note("A#")\<close> and \<open>Note("Bb")\<close> are equal under \<open>__eq__\<close>, in both directions,
  and their hashes are the built-in hash of the two different pairs \<open>("A#", "")\<close> and
  \<open>("Bb", "")\<close>: whenever the built-in hash separates these two pairs, the two equal Notes
  have different hashes. The witness takes the sum of the character codes for the
  built-in hash.
\<close>

theorem note_hash_inconsistent:
  assumes "h (''A#'', '''') \<noteq> h (''Bb'', '''')"
  shows "note_eq (Note_init ''A#'') (Note_init ''Bb'') = Inr True \<and>
         note_eq (Note_init ''Bb'') (Note_init ''A#'') = Inr True \<and>
         hash_key (Note_init ''A#'') \<noteq> hash_key (Note_init ''Bb'') \<and>
         note_hash h (Note_init ''A#'') \<noteq> note_hash h (Note_init ''Bb'')"
proof -
  have a: "Note_init ''A#'' = \<lparr>note = ''A#'', sharpness = ''''\<rparr>"
    and b: "Note_init ''Bb'' = \<lparr>note = ''Bb'', sharpness = ''''\<rparr>"
    by (simp_all add: Note_init_def capitalize_def upper_char_def lower_char_def
        ascii_uppercase_def ascii_lowercase_def)
  have ia: "get_index \<lparr>note = ''A#'', sharpness = ''''\<rparr> = Inr (1 / 2)"
    and ib: "get_index \<lparr>note = ''Bb'', sharpness = ''''\<rparr> = Inr (1 / 2)"
    by (simp_all add: get_index_def ascii_uppercase_def)
  from assms show ?thesis
    by (simp add: a b note_eq_def ia ib note_hash_def hash_key_def)
qed

theorem note_hash_inconsistent_witness:
  "(\<lambda>p. sum_list (map of_char (fst p @ snd p))) (''A#'', '''') \<noteq>
     ((\<lambda>p. sum_list (map of_char (fst p @ snd p))) (''Bb'', '''') :: int) \<and>
   note_eq (Note_init ''A#'') (Note_init ''Bb'') = Inr True \<and>
   note_hash (\<lambda>p. sum_list (map of_char (fst p @ snd p))) (Note_init ''A#'') = 100 \<and>
   note_hash (\<lambda>p. sum_list (map of_char (fst p @ snd p))) (Note_init ''Bb'') = 164"
  using note_hash_inconsistent [of "\<lambda>p. sum_list (map of_char (fst p @ snd p))"]
  by (simp add: note_hash_def Note_init_def capitalize_def upper_char_def lower_char_def
        ascii_uppercase_def ascii_lowercase_def)

section \<open>The note collection\<close>

text \<open>Some Notes of the examples, and their indices.\<close>

lemma Note_init_ex:
  "Note_init ''A#'' = \<lparr>note = ''A#'', sharpness = ''''\<rparr>"
  "Note_init ''Bb'' = \<lparr>note = ''Bb'', sharpness = ''''\<rparr>"
  "Note_init ''C'' = \<lparr>note = ''C'', sharpness = ''''\<rparr>"
  by (simp_all add: Note_init_def capitalize_def upper_char_def lower_char_def
      ascii_uppercase_def ascii_lowercase_def)

lemma get_index_ex:
  "get_index \<lparr>note = ''A#'', sharpness = ''''\<rparr> = Inr (1 / 2)"
  "get_index \<lparr>note = ''Bb'', sharpness = ''''\<rparr> = Inr (1 / 2)"
  "get_index \<lparr>note = ''C'', sharpness = ''''\<rparr> = Inr 2"
  by (simp_all add: get_index_def ascii_uppercase_def)

lemma note_eq_self_not_False: "note_eq n n \<noteq> Inr False"
  by (auto simp: note_eq_def split: sum.splits)

lemma list_contains_False_iff:
  "list_contains ns el = Inr False \<longleftrightarrow> (\<forall>e\<in>set ns. note_eq e el = Inr False)"
  by (induction ns) (auto split: sum.splits bool.splits)

lemma list_contains_append:
  "list_contains ns el = Inr False \<Longrightarrow> list_contains (ns @ ms) el = list_contains ms el"
  by (induction ns) (auto split: sum.splits bool.splits)

lemma NoteCollection_add_state:
  "snd (NoteCollection_add ns n) = (if list_contains ns n = Inr False then ns @ [n] else ns)"
  by (auto simp: NoteCollection_add_def split: sum.splits bool.splits)

lemma note_eq_False_trans:
  assumes "note_eq e m = Inr False" and "note_eq n m = Inr True"
  shows "note_eq e n = Inr False"
proof -
  from assms(2) obtain p where n: "get_index n = Inr p" and m: "get_index m = Inr p"
    and nm: "str_in (sharpness n) (sharpness m)"
    by (auto simp: note_eq_True_iff)
  from assms(1) m obtain q where e: "get_index e = Inr q"
    and neq: "\<not> (q = p \<and> str_in (sharpness e) (sharpness m))"
    by (auto simp: note_eq_def split: sum.splits)
  from neq nm have "\<not> (q = p \<and> str_in (sharpness e) (sharpness n))"
    by (auto dest: str_in_trans)
  with e n show ?thesis
    by (simp add: note_eq_def)
qed

text \<open>
  Claim C8. If the collection holds a Note \<open>e\<close> with \<open>e == n\<close>, then \<open>add(n)\<close> leaves the
  list of notes as it is. Adding \<open>n\<close> a second time, or adding after \<open>n\<close> a Note \<open>m\<close> with
  \<open>n == m\<close>, leaves the list as it is after the first \<open>add\<close>; so two such calls make
  the collection grow by one Note at most.
\<close>

theorem NoteCollection_add_idempotent:
  "((\<exists>e\<in>set ns. note_eq e n = Inr True) \<longrightarrow> snd (NoteCollection_add ns n) = ns) \<and>
   snd (NoteCollection_add (snd (NoteCollection_add ns n)) n) = snd (NoteCollection_add ns n) \<and>
   (note_eq n m = Inr True \<longrightarrow>
      snd (NoteCollection_add (snd (NoteCollection_add ns n)) m) = snd (NoteCollection_add ns n)) \<and>
   length (snd (NoteCollection_add (snd (NoteCollection_add ns n)) n)) \<le> length ns + 1"
proof (intro conjI impI)
  assume "\<exists>e\<in>set ns. note_eq e n = Inr True"
  then have "list_contains ns n \<noteq> Inr False"
    unfolding list_contains_False_iff by fastforce
  then show "snd (NoteCollection_add ns n) = ns"
    by (simp add: NoteCollection_add_state)
next
  show same: "snd (NoteCollection_add (snd (NoteCollection_add ns n)) n) =
    snd (NoteCollection_add ns n)"
  proof (cases "list_contains ns n = Inr False")
    case True
    then have "list_contains (ns @ [n]) n \<noteq> Inr False"
      using note_eq_self_not_False [of n]
      by (auto simp: list_contains_append split: sum.splits bool.splits)
    with True show ?thesis
      by (simp add: NoteCollection_add_state)
  next
    case False
    then show ?thesis
      by (simp add: NoteCollection_add_state)
  qed
  have "length (snd (NoteCollection_add ns n)) \<le> length ns + 1"
    by (simp add: NoteCollection_add_state)
  with same show "length (snd (NoteCollection_add (snd (NoteCollection_add ns n)) n))
      \<le> length ns + 1"
    by simp
next
  assume nm: "note_eq n m = Inr True"
  show "snd (NoteCollection_add (snd (NoteCollection_add ns n)) m) =
    snd (NoteCollection_add ns n)"
  proof (cases "list_contains ns n = Inr False")
    case True
    with nm have "list_contains (ns @ [n]) m \<noteq> Inr False"
      unfolding list_contains_False_iff by fastforce
    with True show ?thesis
      by (simp add: NoteCollection_add_state)
  next
    case False
    have "list_contains ns m \<noteq> Inr False"
    proof
      assume "list_contains ns m = Inr False"
      then have "\<forall>e\<in>set ns. note_eq e n = Inr False"
        using nm by (auto simp: list_contains_False_iff intro: note_eq_False_trans)
      with False show False
        by (simp add: list_contains_False_iff)
    qed
    with False show ?thesis
      by (simp add: NoteCollection_add_state)
  qed
qed

theorem NoteCollection_add_idempotent_witness:
  "(\<exists>e\<in>set [Note_init ''C'', Note_init ''A#'']. note_eq e (Note_init ''Bb'') = Inr True) \<and>
   NoteCollection_add [Note_init ''C'', Note_init ''A#''] (Note_init ''Bb'') =
     (Inr (), [Note_init ''C'', Note_init ''A#'']) \<and>
   note_eq (Note_init ''A#'') (Note_init ''Bb'') = Inr True \<and>
   NoteCollection_add [Note_init ''C''] (Note_init ''A#'') =
     (Inr (), [Note_init ''C'', Note_init ''A#'']) \<and>
   snd (NoteCollection_add (snd (NoteCollection_add [Note_init ''C''] (Note_init ''A#'')))
          (Note_init ''Bb'')) = [Note_init ''C'', Note_init ''A#'']"
  using NoteCollection_add_idempotent
    [of "[Note_init ''C'', Note_init ''A#'']" "Note_init ''Bb''" "Note_init ''Bb''"]
    NoteCollection_add_idempotent [of "[Note_init ''C'']" "Note_init ''A#''" "Note_init ''Bb''"]
  by (simp add: NoteCollection_add_def note_eq_def Note_init_ex get_index_ex)

section \<open>Chord construction\<close>

lemma card_set_neq_length: "card (set xs) \<noteq> length xs \<longleftrightarrow> \<not> distinct xs"
  using distinct_card [of xs] card_distinct [of xs] by blast

lemma duplicate_check:
  "(card (set (map f ns)) \<noteq> length ns \<or>
    card (set (map f ns @ [name])) \<noteq> length (map f ns) + 1) \<longleftrightarrow>
   \<not> distinct (map f ns @ [name])"
proof -
  have "length (map f ns @ [name]) = length (map f ns) + 1" "length (map f ns) = length ns"
    by simp_all
  then show ?thesis
    using card_set_neq_length [of "map f ns"] card_set_neq_length [of "map f ns @ [name]"]
    by (metis distinct_append)
qed

lemma Chord_init_eq:
  "Chord_init note_one note_two name note_three =
     (if \<not> distinct (map note (case note_three of
                                   Some n3 \<Rightarrow> [note_one, note_two, n3]
                                 | None \<Rightarrow> [note_one, note_two]) @ [name])
      then Inl DuplicateNoteNamesException
      else Inr \<lparr>notes = sort_key (\<lambda>x. (note x, sharpness x))
                          (case note_three of
                             Some n3 \<Rightarrow> [note_one, note_two, n3]
                           | None \<Rightarrow> [note_one, note_two]),
                chord_name = name\<rparr>)"
  unfolding Chord_init_def Let_def duplicate_check ..

text \<open>
  Claim C1, as stated, makes construction fail when two notes share their letter or when
  the first letter of the chord name is the letter of a note. The code compares the whole
  \<open>note\<close> strings with each other and with the whole chord name. Notes \<open>A\<close>, \<open>B\<close>, \<open>C\<close>
  with the name \<open>Amaj\<close> are accepted although the name starts with the letter of the
  note \<open>A\<close>, and notes \<open>A#\<close>, \<open>Ab\<close> with the name \<open>X\<close> are accepted although both notes
  have the letter \<open>A\<close>.
\<close>

theorem Chord_init_letter_counterexample:
  "Chord_init (Note_init ''A'') (Note_init ''B'') ''Amaj'' (Some (Note_init ''C'')) =
     Inr \<lparr>notes = [Note_init ''A'', Note_init ''B'', Note_init ''C''], chord_name = ''Amaj''\<rparr> \<and>
   hd ''Amaj'' = hd (note (Note_init ''A'')) \<and>
   Chord_init (Note_init ''A#'') (Note_init ''Ab'') ''X'' None =
     Inr \<lparr>notes = [Note_init ''A#'', Note_init ''Ab''], chord_name = ''X''\<rparr> \<and>
   hd (note (Note_init ''A#'')) = hd (note (Note_init ''Ab''))"
  by (simp add: Chord_init_def Note_init_def capitalize_def upper_char_def lower_char_def
      ascii_uppercase_def ascii_lowercase_def)

text \<open>
  Claim C1, amended. Construction from 2 or 3 Notes and a name raises
  \<open>DuplicateNoteNamesException\<close> exactly when two of the Notes have the same \<open>note\<close>
  string or the chord name, as a whole string, is the \<open>note\<close> string of one of them. In
  every other case it returns the chord with the Notes sorted by \<open>(note, sharpness)\<close> and
  the given name.
\<close>

theorem Chord_init_spec:
  "(Chord_init a b name None = Inl DuplicateNoteNamesException \<longleftrightarrow>
      note a = note b \<or> name = note a \<or> name = note b) \<and>
   (Chord_init a b name (Some c) = Inl DuplicateNoteNamesException \<longleftrightarrow>
      note a = note b \<or> note a = note c \<or> note b = note c \<or>
      name = note a \<or> name = note b \<or> name = note c) \<and>
   (Chord_init a b name None \<noteq> Inl DuplicateNoteNamesException \<longrightarrow>
      Chord_init a b name None =
        Inr \<lparr>notes = sort_key (\<lambda>x. (note x, sharpness x)) [a, b], chord_name = name\<rparr>) \<and>
   (Chord_init a b name (Some c) \<noteq> Inl DuplicateNoteNamesException \<longrightarrow>
      Chord_init a b name (Some c) =
        Inr \<lparr>notes = sort_key (\<lambda>x. (note x, sharpness x)) [a, b, c], chord_name = name\<rparr>)"
proof -
  have two: "Chord_init a b name None =
      (if note a = note b \<or> name = note a \<or> name = note b
       then Inl DuplicateNoteNamesException
       else Inr \<lparr>notes = sort_key (\<lambda>x. (note x, sharpness x)) [a, b], chord_name = name\<rparr>)"
    using Chord_init_eq [of a b name None] by auto
  have three: "Chord_init a b name (Some c) =
      (if note a = note b \<or> note a = note c \<or> note b = note c \<or>
          name = note a \<or> name = note b \<or> name = note c
       then Inl DuplicateNoteNamesException
       else Inr \<lparr>notes = sort_key (\<lambda>x. (note x, sharpness x)) [a, b, c], chord_name = name\<rparr>)"
    using Chord_init_eq [of a b name "Some c"] by auto
  show ?thesis
    unfolding two three by simp
qed

theorem Chord_init_spec_witness:
  "Chord_init (Note_init ''A'') (Note_init ''B'') ''Amaj'' (Some (Note_init ''C'')) =
     Inr \<lparr>notes = [Note_init ''A'', Note_init ''B'', Note_init ''C''], chord_name = ''Amaj''\<rparr> \<and>
   Chord_init (Note_init ''E'') (Note_init ''A'') ''E'' None = Inl DuplicateNoteNamesException \<and>
   Chord_init (Note_init ''E'') (Note_init ''B'') ''E5'' None =
     Inr \<lparr>notes = [Note_init ''B'', Note_init ''E''], chord_name = ''E5''\<rparr>"
  using Chord_init_spec [of "Note_init ''A''" "Note_init ''B''" "''Amaj''" "Note_init ''C''"]
    Chord_init_spec [of "Note_init ''E''" "Note_init ''A''" "''E''" "Note_init ''B''"]
    Chord_init_spec [of "Note_init ''E''" "Note_init ''B''" "''E5''" "Note_init ''B''"]
  by (simp add: Note_init_def capitalize_def upper_char_def lower_char_def
      ascii_uppercase_def ascii_lowercase_def)

section \<open>Lookup in the registry\<close>

lemma get_scan_find:
  "get_scan cs q = find (\<lambda>chord. q = note_names_set (notes chord)) cs"
  by (induction cs) simp_all

lemma note_names_set_perm:
  "note_names_set [a, b] = note_names_set [b, a]"
  "note_names_set [a, b, c] = note_names_set [a, c, b]"
  "note_names_set [a, b, c] = note_names_set [b, a, c]"
  "note_names_set [a, b, c] = note_names_set [b, c, a]"
  "note_names_set [a, b, c] = note_names_set [c, a, b]"
  "note_names_set [a, b, c] = note_names_set [c, b, a]"
  by (auto simp: note_names_set_def)

lemma Chords_get_find:
  "Chords_get cs a b t =
     find (\<lambda>chord. note_names_set (a # b # (case t of None \<Rightarrow> [] | Some c \<Rightarrow> [c])) =
                     note_names_set (notes chord)) cs"
  by (cases t) (simp_all add: Chords_get_def get_scan_find)

text \<open>
  Claim C4. \<open>Chords.get\<close> gives the same result for every order of its 2 or 3 Notes. Its
  result is the first chord of the registry whose set of strings \<open>note + sharpness\<close> is
  the set of these strings of the query, and \<open>None\<close> when the registry has no such chord.
  The strings are compared as they are: a query \<open>A#\<close>, \<open>C\<close> does not find a chord stored
  with \<open>Bb\<close>, \<open>C\<close>.
\<close>

theorem Chords_get_spec:
  "Chords_get cs a b None = Chords_get cs b a None \<and>
   Chords_get cs a b (Some c) = Chords_get cs a c (Some b) \<and>
   Chords_get cs a b (Some c) = Chords_get cs b a (Some c) \<and>
   Chords_get cs a b (Some c) = Chords_get cs b c (Some a) \<and>
   Chords_get cs a b (Some c) = Chords_get cs c a (Some b) \<and>
   Chords_get cs a b (Some c) = Chords_get cs c b (Some a) \<and>
   (case Chords_get cs a b t of
      None \<Rightarrow>
        \<forall>chord\<in>set cs. note_names_set (notes chord) \<noteq>
          note_names_set (a # b # (case t of None \<Rightarrow> [] | Some c \<Rightarrow> [c]))
    | Some chord \<Rightarrow>
        \<exists>i<length cs. cs ! i = chord \<and>
          note_names_set (notes chord) =
            note_names_set (a # b # (case t of None \<Rightarrow> [] | Some c \<Rightarrow> [c])) \<and>
          (\<forall>j<i. note_names_set (notes (cs ! j)) \<noteq>
            note_names_set (a # b # (case t of None \<Rightarrow> [] | Some c \<Rightarrow> [c]))))"
proof -
  let ?q = "note_names_set (a # b # (case t of None \<Rightarrow> [] | Some c \<Rightarrow> [c]))"
  have perm: "Chords_get cs a b None = Chords_get cs b a None"
    "Chords_get cs a b (Some c) = Chords_get cs a c (Some b)"
    "Chords_get cs a b (Some c) = Chords_get cs b a (Some c)"
    "Chords_get cs a b (Some c) = Chords_get cs b c (Some a)"
    "Chords_get cs a b (Some c) = Chords_get cs c a (Some b)"
    "Chords_get cs a b (Some c) = Chords_get cs c b (Some a)"
    using note_names_set_perm(1) [of a b] note_names_set_perm(2-6) [of a b c]
    by (simp_all add: Chords_get_def)
  have scan: "case Chords_get cs a b t of
      None \<Rightarrow> \<forall>chord\<in>set cs. note_names_set (notes chord) \<noteq> ?q
    | Some chord \<Rightarrow>
        \<exists>i<length cs. cs ! i = chord \<and> note_names_set (notes chord) = ?q \<and>
          (\<forall>j<i. note_names_set (notes (cs ! j)) \<noteq> ?q)"
  proof (cases "Chords_get cs a b t")
    case None
    then have "\<forall>chord\<in>set cs. ?q \<noteq> note_names_set (notes chord)"
      by (simp add: Chords_get_find find_None_iff)
    with None show ?thesis
      by auto
  next
    case (Some chord)
    then obtain i where "i < length cs" "?q = note_names_set (notes (cs ! i))" "chord = cs ! i"
      "\<forall>j<i. ?q \<noteq> note_names_set (notes (cs ! j))"
      unfolding Chords_get_find find_Some_iff by blast
    then have "\<exists>i<length cs. cs ! i = chord \<and> note_names_set (notes chord) = ?q \<and>
          (\<forall>j<i. note_names_set (notes (cs ! j)) \<noteq> ?q)"
      by (intro exI [of _ i]) auto
    with Some show ?thesis
      by simp
  qed
  from perm scan show ?thesis
    by (intro conjI)
qed

theorem Chords_get_spec_witness:
  "Chord_init (Note_init ''A'') (Note_init ''B'') ''Amaj'' (Some (Note_init ''C'')) =
     Inr \<lparr>notes = [Note_init ''A'', Note_init ''B'', Note_init ''C''], chord_name = ''Amaj''\<rparr> \<and>
   Chords_add (\<lambda>p. sum_list (map of_char (fst p @ snd p))) []
     \<lparr>notes = [Note_init ''A'', Note_init ''B'', Note_init ''C''], chord_name = ''Amaj''\<rparr> =
     (Inr (),
      [\<lparr>notes = [Note_init ''A'', Note_init ''B'', Note_init ''C''], chord_name = ''Amaj''\<rparr>]) \<and>
   Chords_get
     [\<lparr>notes = [Note_init ''A'', Note_init ''B'', Note_init ''C''], chord_name = ''Amaj''\<rparr>]
     (Note_init ''B'') (Note_init ''C'') (Some (Note_init ''A'')) =
     Some \<lparr>notes = [Note_init ''A'', Note_init ''B'', Note_init ''C''], chord_name = ''Amaj''\<rparr> \<and>
   Chords_get
     [\<lparr>notes = [Note_init ''A'', Note_init ''B'', Note_init ''C''], chord_name = ''Amaj''\<rparr>]
     (Note_init ''D'') (Note_init ''Z'') None = None \<and>
   Chords_get [\<lparr>notes = [Note_init ''Bb'', Note_init ''C''], chord_name = ''X''\<rparr>]
     (Note_init ''A#'') (Note_init ''C'') None = None"
proof -
  have n: "Note_init ''A'' = \<lparr>note = ''A'', sharpness = ''''\<rparr>"
    "Note_init ''B'' = \<lparr>note = ''B'', sharpness = ''''\<rparr>"
    "Note_init ''C'' = \<lparr>note = ''C'', sharpness = ''''\<rparr>"
    "Note_init ''D'' = \<lparr>note = ''D'', sharpness = ''''\<rparr>"
    "Note_init ''Z'' = \<lparr>note = ''Z'', sharpness = ''''\<rparr>"
    "Note_init ''A#'' = \<lparr>note = ''A#'', sharpness = ''''\<rparr>"
    "Note_init ''Bb'' = \<lparr>note = ''Bb'', sharpness = ''''\<rparr>"
    by (simp_all add: Note_init_def capitalize_def upper_char_def lower_char_def
        ascii_uppercase_def ascii_lowercase_def)
  have c: "Chord_init (Note_init ''A'') (Note_init ''B'') ''Amaj'' (Some (Note_init ''C'')) =
     Inr \<lparr>notes = [Note_init ''A'', Note_init ''B'', Note_init ''C''], chord_name = ''Amaj''\<rparr>"
    by (simp add: Chord_init_def n)
  have g: "Chords_get
     [\<lparr>notes = [Note_init ''A'', Note_init ''B'', Note_init ''C''], chord_name = ''Amaj''\<rparr>]
     (Note_init ''D'') (Note_init ''Z'') None = None"
    "Chords_get [\<lparr>notes = [Note_init ''Bb'', Note_init ''C''], chord_name = ''X''\<rparr>]
     (Note_init ''A#'') (Note_init ''C'') None = None"
    by (simp_all add: Chords_get_def note_names_set_def n set_eq_subset)
  have s: "Chords_get
     [\<lparr>notes = [Note_init ''A'', Note_init ''B'', Note_init ''C''], chord_name = ''Amaj''\<rparr>]
     (Note_init ''A'') (Note_init ''B'') (Some (Note_init ''C'')) =
     Some \<lparr>notes = [Note_init ''A'', Note_init ''B'', Note_init ''C''], chord_name = ''Amaj''\<rparr>"
    by (simp add: Chords_get_def note_names_set_def)
  have t: "Chords_get
     [\<lparr>notes = [Note_init ''A'', Note_init ''B'', Note_init ''C''], chord_name = ''Amaj''\<rparr>]
     (Note_init ''B'') (Note_init ''C'') (Some (Note_init ''A'')) =
     Some \<lparr>notes = [Note_init ''A'', Note_init ''B'', Note_init ''C''], chord_name = ''Amaj''\<rparr>"
    unfolding s [symmetric]
    by (rule sym) (rule conjunct1 [OF conjunct2 [OF conjunct2 [OF conjunct2 [OF Chords_get_spec]]]])
  have a: "Chords_add (\<lambda>p. sum_list (map of_char (fst p @ snd p))) []
     \<lparr>notes = [Note_init ''A'', Note_init ''B'', Note_init ''C''], chord_name = ''Amaj''\<rparr> =
     (Inr (),
      [\<lparr>notes = [Note_init ''A'', Note_init ''B'', Note_init ''C''], chord_name = ''Amaj''\<rparr>])"
    by (simp add: Chords_add_def)
  from c a t g show ?thesis
    by (intro conjI)
qed

section \<open>Python sets of Notes\<close>

text \<open>No comparison raises when every Note has a non-empty name.\<close>

lemma get_index_total: "note n \<noteq> [] \<Longrightarrow> \<not> isl (get_index n)"
  by (cases "note n") (simp_all add: get_index_def Let_def)

lemma note_eq_total:
  "note a \<noteq> [] \<Longrightarrow> note b \<noteq> [] \<Longrightarrow> \<not> isl (note_eq a b)"
  using get_index_total [of a] get_index_total [of b]
  by (auto simp: note_eq_def split: sum.splits)

lemma set_lookkey_total:
  "\<forall>e\<in>set table. note e \<noteq> [] \<Longrightarrow> note key \<noteq> [] \<Longrightarrow>
     \<not> isl (set_lookkey h table key)"
proof (induction table)
  case Nil
  then show ?case by simp
next
  case (Cons entry table)
  then have "\<not> isl (note_eq entry key)"
    using note_eq_total [of entry key] by auto
  with Cons show ?case
    by (auto split: sum.splits bool.splits)
qed

lemma set_update_total:
  "\<forall>e\<in>set so. note e \<noteq> [] \<Longrightarrow> \<forall>x\<in>set xs. note x \<noteq> [] \<Longrightarrow>
     \<exists>s. set_update h so xs = Inr s \<and> (\<forall>e\<in>set s. note e \<noteq> [])"
proof (induction xs arbitrary: so)
  case Nil
  then show ?case by simp
next
  case (Cons x xs)
  then have t: "\<not> isl (set_lookkey h so x)"
    using set_lookkey_total [of so x h] by auto
  show ?case
  proof (cases "set_lookkey h so x")
    case (Inl e)
    with t show ?thesis by simp
  next
    case (Inr r)
    show ?thesis
    proof (cases r)
      case True
      with Inr Cons.IH [of so] Cons.prems show ?thesis by simp
    next
      case False
      with Inr Cons.IH [of "so @ [x]"] Cons.prems show ?thesis by simp
    qed
  qed
qed

lemma set_issubset_total:
  "\<forall>e\<in>set so. note e \<noteq> [] \<Longrightarrow> \<forall>e\<in>set other. note e \<noteq> [] \<Longrightarrow>
     \<not> isl (set_issubset h so other)"
proof (induction so)
  case Nil
  then show ?case by simp
next
  case (Cons key so)
  then have "\<not> isl (set_lookkey h other key)"
    using set_lookkey_total [of other key h] by auto
  with Cons show ?case
    by (auto split: sum.splits bool.splits)
qed

lemma notes_set_eq_total:
  assumes "\<forall>n\<in>set xs. note n \<noteq> []" and "\<forall>n\<in>set ys. note n \<noteq> []"
  shows "\<not> isl (notes_set_eq h xs ys)"
proof -
  from assms(1) obtain v where v: "py_set h xs = Inr v" "\<forall>e\<in>set v. note e \<noteq> []"
    using set_update_total [of "[]" xs h] by (auto simp: py_set_def)
  from assms(2) obtain w where w: "py_set h ys = Inr w" "\<forall>e\<in>set w. note e \<noteq> []"
    using set_update_total [of "[]" ys h] by (auto simp: py_set_def)
  from v(2) w(2) have "\<not> isl (set_issubset h v w)"
    by (rule set_issubset_total)
  with v(1) w(1) show ?thesis
    by (simp add: notes_set_eq_def set_eq_def)
qed

lemma add_scan_total:
  assumes "\<forall>e\<in>set cs. \<not> isl (notes_set_eq h (notes e) (notes chord))"
  shows "add_scan h cs chord =
           (if \<exists>e\<in>set cs. notes_set_eq h (notes e) (notes chord) = Inr True
            then Inl ChordOverlapException else Inr ())"
  using assms
  by (induction cs) (auto split: sum.splits bool.splits)

text \<open>When the built-in hash separates the pairs \<open>(note, sharpness)\<close> of the Notes at hand,
  \<open>set(xs) == set(ys)\<close> is the equality of the two sets of Note values.\<close>

lemma hash_key_eq_iff: "hash_key a = hash_key b \<longleftrightarrow> a = (b :: Note)"
  by (cases a, cases b) (auto simp: hash_key_def)

lemma note_hash_key: "note_hash h n = h (hash_key n)"
  by (simp add: note_hash_def hash_key_def)

lemma note_eq_refl: "note n \<noteq> [] \<Longrightarrow> note_eq n n = Inr True"
  using get_index_total [of n] by (auto simp: note_eq_def split: sum.splits)

lemma set_lookkey_inj:
  assumes "\<forall>e\<in>set table. note e \<noteq> []" and "note key \<noteq> []"
    and "inj_on h (hash_key ` (insert key (set table)))"
  shows "set_lookkey h table key = Inr (key \<in> set table)"
  using assms
proof (induction table)
  case Nil
  then show ?case by simp
next
  case (Cons entry table)
  from Cons.prems(3) have inj: "inj_on h (hash_key ` (insert key (set table)))"
    by (rule inj_on_subset) auto
  from Cons.prems(1) have wf: "\<forall>e\<in>set table. note e \<noteq> []"
    by simp
  note IH = Cons.IH [OF wf Cons.prems(2) inj]
  show ?case
  proof (cases "entry = key")
    case True
    with Cons.prems(2) show ?thesis
      by (simp add: note_eq_refl)
  next
    case False
    then have "hash_key entry \<noteq> hash_key key"
      by (simp add: hash_key_eq_iff)
    with Cons.prems(3) have "note_hash h entry \<noteq> note_hash h key"
      by (auto simp: note_hash_key inj_on_def)
    with False IH show ?thesis
      by auto
  qed
qed

lemma set_update_inj:
  assumes "\<forall>e\<in>set so. note e \<noteq> []" and "\<forall>x\<in>set xs. note x \<noteq> []"
    and "inj_on h (hash_key ` (set so \<union> set xs))" and "distinct so"
  shows "\<exists>s. set_update h so xs = Inr s \<and> set s = set so \<union> set xs \<and> distinct s"
  using assms
proof (induction xs arbitrary: so)
  case Nil
  then show ?case by simp
next
  case (Cons x xs)
  from Cons.prems(3) have "inj_on h (hash_key ` (insert x (set so)))"
    by (rule inj_on_subset) auto
  with Cons.prems have look: "set_lookkey h so x = Inr (x \<in> set so)"
    by (intro set_lookkey_inj) auto
  show ?case
  proof (cases "x \<in> set so")
    case True
    from Cons.prems(3) have "inj_on h (hash_key ` (set so \<union> set xs))"
      by (rule inj_on_subset) auto
    with Cons.prems have "\<exists>s. set_update h so xs = Inr s \<and> set s = set so \<union> set xs \<and> distinct s"
      by (intro Cons.IH) auto
    with True look show ?thesis
      by auto
  next
    case False
    from Cons.prems(3) have "inj_on h (hash_key ` (set (so @ [x]) \<union> set xs))"
      by (rule inj_on_subset) auto
    with Cons.prems False
    have "\<exists>s. set_update h (so @ [x]) xs = Inr s \<and> set s = set (so @ [x]) \<union> set xs \<and> distinct s"
      by (intro Cons.IH) auto
    with False look show ?thesis
      by auto
  qed
qed

lemma set_issubset_inj:
  assumes "\<forall>e\<in>set so. note e \<noteq> []" and "\<forall>e\<in>set other. note e \<noteq> []"
    and "inj_on h (hash_key ` (set so \<union> set other))"
  shows "set_issubset h so other = Inr (set so \<subseteq> set other)"
  using assms
proof (induction so)
  case Nil
  then show ?case by simp
next
  case (Cons key so)
  from Cons.prems(3) have "inj_on h (hash_key ` (insert key (set other)))"
    by (rule inj_on_subset) auto
  with Cons.prems have look: "set_lookkey h other key = Inr (key \<in> set other)"
    by (intro set_lookkey_inj) auto
  from Cons.prems(3) have "inj_on h (hash_key ` (set so \<union> set other))"
    by (rule inj_on_subset) auto
  with Cons.prems have "set_issubset h so other = Inr (set so \<subseteq> set other)"
    by (intro Cons.IH) auto
  with look show ?case
    by (cases "key \<in> set other") simp_all
qed

lemma notes_set_eq_inj:
  assumes "\<forall>n\<in>set xs. note n \<noteq> []" and "\<forall>n\<in>set ys. note n \<noteq> []"
    and "inj_on h (hash_key ` (set xs \<union> set ys))"
  shows "notes_set_eq h xs ys = Inr (set xs = set ys)"
proof -
  from assms(3) have "inj_on h (hash_key ` (set [] \<union> set xs))"
    by (rule inj_on_subset) auto
  with assms(1) obtain v where v: "py_set h xs = Inr v" "set v = set xs" "distinct v"
    using set_update_inj [of "[]" xs h] by (auto simp: py_set_def)
  from assms(3) have "inj_on h (hash_key ` (set [] \<union> set ys))"
    by (rule inj_on_subset) auto
  with assms(2) obtain w where w: "py_set h ys = Inr w" "set w = set ys" "distinct w"
    using set_update_inj [of "[]" ys h] by (auto simp: py_set_def)
  from assms v(2) w(2) have sub: "set_issubset h v w = Inr (set xs \<subseteq> set ys)"
    using set_issubset_inj [of v w h] by simp
  have "(length v = length w \<and> set xs \<subseteq> set ys) \<longleftrightarrow> set xs = set ys"
  proof
    assume a: "length v = length w \<and> set xs \<subseteq> set ys"
    with v w have "card (set xs) = card (set ys)"
      by (metis distinct_card)
    with a show "set xs = set ys"
      by (simp add: card_subset_eq)
  next
    assume "set xs = set ys"
    with v w have "length v = length w"
      by (metis distinct_card)
    with \<open>set xs = set ys\<close> show "length v = length w \<and> set xs \<subseteq> set ys"
      by simp
  qed
  with v(1) w(1) sub show ?thesis
    by (auto simp: notes_set_eq_def set_eq_def)
qed

section \<open>Insertion into the registry\<close>

lemma Chords_add_eq:
  assumes "\<forall>existing_chord\<in>set cs. \<forall>n\<in>set (notes existing_chord). note n \<noteq> []"
    and "\<forall>n\<in>set (notes chord). note n \<noteq> []"
  shows "Chords_add h cs chord =
           (if \<exists>existing_chord\<in>set cs.
                 notes_set_eq h (notes existing_chord) (notes chord) = Inr True
            then (Inl ChordOverlapException, cs)
            else (Inr (), cs @ [chord]))"
proof -
  from assms have "\<forall>e\<in>set cs. \<not> isl (notes_set_eq h (notes e) (notes chord))"
    using notes_set_eq_total by blast
  then have "add_scan h cs chord =
           (if \<exists>e\<in>set cs. notes_set_eq h (notes e) (notes chord) = Inr True
            then Inl ChordOverlapException else Inr ())"
    by (rule add_scan_total)
  then show ?thesis
    by (simp add: Chords_add_def)
qed

lemma Note_init_driver:
  "Note_init ''A'' = \<lparr>note = ''A'', sharpness = ''''\<rparr>"
  "Note_init ''B'' = \<lparr>note = ''B'', sharpness = ''''\<rparr>"
  "Note_init ''E'' = \<lparr>note = ''E'', sharpness = ''''\<rparr>"
  "Note_init ''G'' = \<lparr>note = ''G'', sharpness = ''''\<rparr>"
  "Note_init ''C#'' = \<lparr>note = ''C#'', sharpness = ''''\<rparr>"
  by (simp_all add: Note_init_def capitalize_def upper_char_def lower_char_def
      ascii_uppercase_def ascii_lowercase_def)

text \<open>
  Claim C5. For Notes with non-empty names, \<open>Chords.add\<close> raises \<open>ChordOverlapException\<close>
  and leaves the list of chords as it is if and only if \<open>set(existing.notes) == set(chord.notes)\<close>
  holds for some chord of the registry; otherwise it returns and the chord is appended.
  When the built-in hash has no collision among the Notes involved, this comparison is the
  equality of the sets of Notes.
\<close>

theorem Chords_add_spec:
  assumes "\<forall>existing_chord\<in>set cs. \<forall>n\<in>set (notes existing_chord). note n \<noteq> []"
    and "\<forall>n\<in>set (notes chord). note n \<noteq> []"
  shows "Chords_add h cs chord =
           (if \<exists>existing_chord\<in>set cs.
                 notes_set_eq h (notes existing_chord) (notes chord) = Inr True
            then (Inl ChordOverlapException, cs)
            else (Inr (), cs @ [chord])) \<and>
         (inj_on h (hash_key ` (\<Union>c\<in>set (chord # cs). set (notes c))) \<longrightarrow>
          Chords_add h cs chord =
            (if \<exists>existing_chord\<in>set cs. set (notes existing_chord) = set (notes chord)
             then (Inl ChordOverlapException, cs)
             else (Inr (), cs @ [chord])))"
proof -
  have first: "Chords_add h cs chord =
           (if \<exists>existing_chord\<in>set cs.
                 notes_set_eq h (notes existing_chord) (notes chord) = Inr True
            then (Inl ChordOverlapException, cs)
            else (Inr (), cs @ [chord]))"
    using assms by (rule Chords_add_eq)
  have "notes_set_eq h (notes e) (notes chord) = Inr (set (notes e) = set (notes chord))"
    if inj: "inj_on h (hash_key ` (\<Union>c\<in>set (chord # cs). set (notes c)))" and e: "e \<in> set cs"
    for e
  proof -
    from inj have "inj_on h (hash_key ` (set (notes e) \<union> set (notes chord)))"
      by (rule inj_on_subset) (use e in auto)
    with assms e show ?thesis
      by (intro notes_set_eq_inj) auto
  qed
  with first show ?thesis
    by auto
qed

theorem Chords_add_spec_witness:
  "Chords_add (\<lambda>p. sum_list (map of_char (fst p @ snd p)))
     [\<lparr>notes = [Note_init ''A'', Note_init ''C#'', Note_init ''E''], chord_name = ''Amaj''\<rparr>,
      \<lparr>notes = [Note_init ''B'', Note_init ''E'', Note_init ''G''], chord_name = ''Emin''\<rparr>,
      \<lparr>notes = [Note_init ''B'', Note_init ''E''], chord_name = ''E5''\<rparr>]
     \<lparr>notes = [Note_init ''B'', Note_init ''E''], chord_name = ''Emaj7add9''\<rparr> =
   (Inl ChordOverlapException,
     [\<lparr>notes = [Note_init ''A'', Note_init ''C#'', Note_init ''E''], chord_name = ''Amaj''\<rparr>,
      \<lparr>notes = [Note_init ''B'', Note_init ''E'', Note_init ''G''], chord_name = ''Emin''\<rparr>,
      \<lparr>notes = [Note_init ''B'', Note_init ''E''], chord_name = ''E5''\<rparr>]) \<and>
   Chords_add (\<lambda>p. sum_list (map of_char (fst p @ snd p)))
     [\<lparr>notes = [Note_init ''A'', Note_init ''C#'', Note_init ''E''], chord_name = ''Amaj''\<rparr>]
     \<lparr>notes = [Note_init ''B'', Note_init ''E''], chord_name = ''E5''\<rparr> =
   (Inr (),
     [\<lparr>notes = [Note_init ''A'', Note_init ''C#'', Note_init ''E''], chord_name = ''Amaj''\<rparr>,
      \<lparr>notes = [Note_init ''B'', Note_init ''E''], chord_name = ''E5''\<rparr>])"
proof -
  let ?h = "\<lambda>p::string \<times> string. (sum_list (map of_char (fst p @ snd p)) :: int)"
  let ?amaj = "\<lparr>notes = [Note_init ''A'', Note_init ''C#'', Note_init ''E''], chord_name = ''Amaj''\<rparr>"
  let ?emin = "\<lparr>notes = [Note_init ''B'', Note_init ''E'', Note_init ''G''], chord_name = ''Emin''\<rparr>"
  let ?e5 = "\<lparr>notes = [Note_init ''B'', Note_init ''E''], chord_name = ''E5''\<rparr>"
  let ?emaj = "\<lparr>notes = [Note_init ''B'', Note_init ''E''], chord_name = ''Emaj7add9''\<rparr>"
  have wf: "\<forall>c\<in>set [?amaj, ?emin, ?e5]. \<forall>n\<in>set (notes c). note n \<noteq> []"
    "\<forall>n\<in>set (notes ?emaj). note n \<noteq> []"
    "\<forall>c\<in>set [?amaj]. \<forall>n\<in>set (notes c). note n \<noteq> []"
    "\<forall>n\<in>set (notes ?e5). note n \<noteq> []"
    by (simp_all add: Note_init_driver)
  have idx: "get_index (Note_init ''A'') = Inr 0" "get_index (Note_init ''B'') = Inr 1"
    "get_index (Note_init ''E'') = Inr 4" "get_index (Note_init ''C#'') = Inr (5 / 2)"
    by (simp_all add: Note_init_driver get_index_def ascii_uppercase_def)
  have hs: "note_hash ?h (Note_init ''A'') = 65" "note_hash ?h (Note_init ''B'') = 66"
    "note_hash ?h (Note_init ''E'') = 69" "note_hash ?h (Note_init ''C#'') = 102"
    by (simp_all add: Note_init_driver note_hash_def)
  have eq: "notes_set_eq ?h (notes ?e5) (notes ?emaj) = Inr True"
    "notes_set_eq ?h (notes ?amaj) (notes ?e5) = Inr False"
    by (simp_all add: notes_set_eq_def py_set_def set_eq_def hs note_eq_def idx
        Note_init_simps)
  from eq(1) conjunct1 [OF Chords_add_spec [OF wf(1,2), of ?h]]
  have 1: "Chords_add ?h [?amaj, ?emin, ?e5] ?emaj = (Inl ChordOverlapException, [?amaj, ?emin, ?e5])"
    by simp
  from eq(2) conjunct1 [OF Chords_add_spec [OF wf(3,4), of ?h]]
  have 2: "Chords_add ?h [?amaj] ?e5 = (Inr (), [?amaj, ?e5])"
    by simp
  from 1 2 show ?thesis
    by (rule conjI)
qed

text \<open>The chords of \<open>A#\<close>, \<open>C\<close> and of \<open>Bb\<close>, \<open>C\<close>.\<close>

lemma enharmonic_chords:
  "name1 \<notin> {''A#'', ''C''} \<Longrightarrow>
     Chord_init (Note_init ''A#'') (Note_init ''C'') name1 None =
       Inr \<lparr>notes = [Note_init ''A#'', Note_init ''C''], chord_name = name1\<rparr>"
  "name2 \<notin> {''Bb'', ''C''} \<Longrightarrow>
     Chord_init (Note_init ''Bb'') (Note_init ''C'') name2 None =
       Inr \<lparr>notes = [Note_init ''Bb'', Note_init ''C''], chord_name = name2\<rparr>"
  by (auto simp: Chord_init_def Note_init_ex)

lemma enharmonic_note_eq:
  "note_eq (Note_init ''A#'') (Note_init ''Bb'') = Inr True"
  "note_eq (Note_init ''Bb'') (Note_init ''A#'') = Inr True"
  "note_eq (Note_init ''A#'') (Note_init ''C'') = Inr False"
  "note_eq (Note_init ''Bb'') (Note_init ''C'') = Inr False"
  "note_eq (Note_init ''C'') (Note_init ''A#'') = Inr False"
  "note_eq (Note_init ''C'') (Note_init ''Bb'') = Inr False"
  "note_eq (Note_init ''C'') (Note_init ''C'') = Inr True"
  by (simp_all add: note_eq_def Note_init_ex get_index_ex)

lemma enharmonic_py_set:
  "py_set h [Note_init ''A#'', Note_init ''C''] = Inr [Note_init ''A#'', Note_init ''C'']"
  "py_set h [Note_init ''Bb'', Note_init ''C''] = Inr [Note_init ''Bb'', Note_init ''C'']"
  by (simp_all add: py_set_def enharmonic_note_eq)

lemma enharmonic_notes_set_eq:
  "notes_set_eq h [Note_init ''A#'', Note_init ''C''] [Note_init ''Bb'', Note_init ''C''] =
     Inr (h (''A#'', '''') = h (''Bb'', ''''))"
  by (simp add: notes_set_eq_def enharmonic_py_set set_eq_def enharmonic_note_eq)
    (simp add: note_hash_def Note_init_ex)

lemma registry_rejects_on_collision:
  "h (''A#'', '''') = h (''Bb'', '''') \<Longrightarrow>
     Chords_add h [\<lparr>notes = [Note_init ''A#'', Note_init ''C''], chord_name = name1\<rparr>]
         \<lparr>notes = [Note_init ''Bb'', Note_init ''C''], chord_name = name2\<rparr> =
       (Inl ChordOverlapException,
        [\<lparr>notes = [Note_init ''A#'', Note_init ''C''], chord_name = name1\<rparr>])"
  by (simp add: Chords_add_def enharmonic_notes_set_eq)

text \<open>
  Claim C10. \<open>Note("A#")\<close> and \<open>Note("Bb")\<close> are equal under \<open>__eq__\<close>, yet when the
  built-in hash of \<open>("A#", "")\<close> differs from that of \<open>("Bb", "")\<close>, the chord of \<open>Bb\<close>, \<open>C\<close>
  is registered after the chord of \<open>A#\<close>, \<open>C\<close> without \<open>ChordOverlapException\<close>, whatever
  names the two chords have (names under which they can be built).
\<close>

theorem registry_accepts_enharmonic_chords:
  assumes "h (''A#'', '''') \<noteq> h (''Bb'', '''')"
    and "name1 \<notin> {''A#'', ''C''}" and "name2 \<notin> {''Bb'', ''C''}"
  shows
    "Chord_init (Note_init ''A#'') (Note_init ''C'') name1 None =
       Inr \<lparr>notes = [Note_init ''A#'', Note_init ''C''], chord_name = name1\<rparr> \<and>
     Chord_init (Note_init ''Bb'') (Note_init ''C'') name2 None =
       Inr \<lparr>notes = [Note_init ''Bb'', Note_init ''C''], chord_name = name2\<rparr> \<and>
     Chords_add h [] \<lparr>notes = [Note_init ''A#'', Note_init ''C''], chord_name = name1\<rparr> =
       (Inr (), [\<lparr>notes = [Note_init ''A#'', Note_init ''C''], chord_name = name1\<rparr>]) \<and>
     Chords_add h [\<lparr>notes = [Note_init ''A#'', Note_init ''C''], chord_name = name1\<rparr>]
         \<lparr>notes = [Note_init ''Bb'', Note_init ''C''], chord_name = name2\<rparr> =
       (Inr (), [\<lparr>notes = [Note_init ''A#'', Note_init ''C''], chord_name = name1\<rparr>,
                 \<lparr>notes = [Note_init ''Bb'', Note_init ''C''], chord_name = name2\<rparr>]) \<and>
     note_eq (Note_init ''A#'') (Note_init ''Bb'') = Inr True \<and>
     note_hash h (Note_init ''A#'') \<noteq> note_hash h (Note_init ''Bb'') \<and>
     chord_eq h \<lparr>notes = [Note_init ''A#'', Note_init ''C''], chord_name = name1\<rparr>
       \<lparr>notes = [Note_init ''Bb'', Note_init ''C''], chord_name = name2\<rparr> = Inr False"
proof -
  from assms(1) have
    "notes_set_eq h [Note_init ''A#'', Note_init ''C''] [Note_init ''Bb'', Note_init ''C''] =
       Inr False"
    by (simp add: enharmonic_notes_set_eq)
  then have add:
    "Chords_add h [] \<lparr>notes = [Note_init ''A#'', Note_init ''C''], chord_name = name1\<rparr> =
       (Inr (), [\<lparr>notes = [Note_init ''A#'', Note_init ''C''], chord_name = name1\<rparr>])"
    "Chords_add h [\<lparr>notes = [Note_init ''A#'', Note_init ''C''], chord_name = name1\<rparr>]
         \<lparr>notes = [Note_init ''Bb'', Note_init ''C''], chord_name = name2\<rparr> =
       (Inr (), [\<lparr>notes = [Note_init ''A#'', Note_init ''C''], chord_name = name1\<rparr>,
                 \<lparr>notes = [Note_init ''Bb'', Note_init ''C''], chord_name = name2\<rparr>])"
    "chord_eq h \<lparr>notes = [Note_init ''A#'', Note_init ''C''], chord_name = name1\<rparr>
       \<lparr>notes = [Note_init ''Bb'', Note_init ''C''], chord_name = name2\<rparr> = Inr False"
    by (simp_all add: Chords_add_def chord_eq_def)
  from assms(1) have hash:
    "note_hash h (Note_init ''A#'') \<noteq> note_hash h (Note_init ''Bb'')"
    by (simp add: note_hash_def Note_init_ex)
  from enharmonic_chords(1) [OF assms(2)] enharmonic_chords(2) [OF assms(3)] add(1,2)
    enharmonic_note_eq(1) hash add(3)
  show ?thesis
    by (intro conjI)
qed

theorem registry_accepts_enharmonic_chords_witness:
  "(\<lambda>p. sum_list (map of_char (fst p @ snd p))) (''A#'', '''') \<noteq>
     ((\<lambda>p. sum_list (map of_char (fst p @ snd p))) (''Bb'', '''') :: int) \<and>
   ''A#5'' \<notin> {''A#'', ''C''} \<and> ''Bb5'' \<notin> {''Bb'', ''C''} \<and>
   Chord_init (Note_init ''A#'') (Note_init ''C'') ''A#5'' None =
     Inr \<lparr>notes = [Note_init ''A#'', Note_init ''C''], chord_name = ''A#5''\<rparr> \<and>
   Chord_init (Note_init ''Bb'') (Note_init ''C'') ''Bb5'' None =
     Inr \<lparr>notes = [Note_init ''Bb'', Note_init ''C''], chord_name = ''Bb5''\<rparr> \<and>
   Chords_add (\<lambda>p. sum_list (map of_char (fst p @ snd p)))
       [\<lparr>notes = [Note_init ''A#'', Note_init ''C''], chord_name = ''A#5''\<rparr>]
       \<lparr>notes = [Note_init ''Bb'', Note_init ''C''], chord_name = ''Bb5''\<rparr> =
     (Inr (), [\<lparr>notes = [Note_init ''A#'', Note_init ''C''], chord_name = ''A#5''\<rparr>,
               \<lparr>notes = [Note_init ''Bb'', Note_init ''C''], chord_name = ''Bb5''\<rparr>])"
proof -
  have h: "(\<lambda>p. sum_list (map of_char (fst p @ snd p))) (''A#'', '''') \<noteq>
     ((\<lambda>p. sum_list (map of_char (fst p @ snd p))) (''Bb'', '''') :: int)"
    by simp
  have n: "''A#5'' \<notin> {''A#'', ''C''}" "''Bb5'' \<notin> {''Bb'', ''C''}"
    by simp_all
  from registry_accepts_enharmonic_chords [OF h n] h n show ?thesis
    by blast
qed

section \<open>The sharpness of a Note\<close>

lemma unaltered_iff: "unaltered ns \<longleftrightarrow> (\<forall>n\<in>set ns. sharpness n = '''')"
  by (simp add: unaltered_def list_all_iff)

lemma NoteCollection_pop_subset:
  "set (snd (NoteCollection_pop ns name)) \<subseteq> set ns \<and>
   (\<forall>m. fst (NoteCollection_pop ns name) = Inr (Some m) \<longrightarrow> m \<in> set ns)"
  by (induction ns) (auto split: sum.splits bool.splits prod.splits)

lemma Chord_init_notes:
  "Chord_init a b name t = Inr ch \<Longrightarrow>
     set (notes ch) = set (a # b # (case t of None \<Rightarrow> [] | Some c \<Rightarrow> [c]))"
  by (cases t) (auto simp: Chord_init_eq split: if_splits)

lemma Chords_add_state:
  "snd (Chords_add h cs chord) = cs \<or> snd (Chords_add h cs chord) = cs @ [chord]"
  by (simp add: Chords_add_def split: sum.splits)

lemma Chords_get_member: "Chords_get cs a b t = Some ch \<Longrightarrow> ch \<in> set cs"
  unfolding Chords_get_find find_Some_iff by auto

lemma get_index_error: "get_index n = Inl e \<Longrightarrow> e = IndexError"
  by (cases "note n") (simp_all add: get_index_def Let_def split: if_splits)

lemma note_eq_unaltered:
  assumes "sharpness x = ''''" and "sharpness y = ''''"
  shows "note_eq x y = Inr True \<longleftrightarrow> (\<exists>p. get_index x = Inr p \<and> get_index y = Inr p)"
    and "note_eq x y = note_eq y x"
  using assms by (auto simp: note_eq_def split: sum.splits dest: get_index_error)

text \<open>
  Claim C9. \<open>Note.__init__\<close> sets the sharpness to the empty string for every input. On
  Notes with empty sharpness, \<open>__eq__\<close> returns \<open>True\<close> exactly when both indices are
  computed and equal, and \<open>x == y\<close> and \<open>y == x\<close> have the same outcome. The operations
  that store or return Notes (\<open>NoteCollection.add\<close>, \<open>pop\<close>, \<open>extract\<close>, \<open>Chord.__init__\<close>,
  \<open>Chords.add\<close>, \<open>Chords.get\<close>) hand on the Notes they were given: if all of these have
  empty sharpness, so have all Notes in the results. The other methods return numbers,
  booleans or strings and assign no attribute.
\<close>

theorem sharpness_always_empty:
  "sharpness (Note_init s) = '''' \<and>
   (sharpness x = '''' \<and> sharpness y = '''' \<longrightarrow>
      (note_eq x y = Inr True \<longleftrightarrow> (\<exists>p. get_index x = Inr p \<and> get_index y = Inr p)) \<and>
      note_eq x y = note_eq y x) \<and>
   (unaltered ns \<and> sharpness n = '''' \<longrightarrow> unaltered (snd (NoteCollection_add ns n))) \<and>
   (unaltered ns \<longrightarrow>
      unaltered (snd (NoteCollection_pop ns name)) \<and>
      (\<forall>m. fst (NoteCollection_pop ns name) = Inr (Some m) \<longrightarrow> sharpness m = '''')) \<and>
   (unaltered ns \<longrightarrow>
      unaltered (fst (NoteCollection_extract ns)) \<and>
      unaltered (snd (NoteCollection_extract ns))) \<and>
   (unaltered (a # b # (case t of None \<Rightarrow> [] | Some c \<Rightarrow> [c])) \<and>
    Chord_init a b name t = Inr ch \<longrightarrow> unaltered (notes ch)) \<and>
   ((\<forall>c\<in>set cs. unaltered (notes c)) \<and> unaltered (notes chord) \<longrightarrow>
      (\<forall>c\<in>set (snd (Chords_add h cs chord)). unaltered (notes c))) \<and>
   ((\<forall>c\<in>set cs. unaltered (notes c)) \<and> Chords_get cs a b t = Some ch \<longrightarrow>
      unaltered (notes ch))"
proof (intro conjI impI)
  show "sharpness (Note_init s) = ''''"
    by (simp add: Note_init_def)
next
  assume "sharpness x = '''' \<and> sharpness y = ''''"
  then show "note_eq x y = Inr True \<longleftrightarrow> (\<exists>p. get_index x = Inr p \<and> get_index y = Inr p)"
    and "note_eq x y = note_eq y x"
    using note_eq_unaltered [of x y] by blast+
next
  assume "unaltered ns \<and> sharpness n = ''''"
  then show "unaltered (snd (NoteCollection_add ns n))"
    by (simp add: NoteCollection_add_state unaltered_iff)
next
  assume u: "unaltered ns"
  with NoteCollection_pop_subset [of ns name]
  show "unaltered (snd (NoteCollection_pop ns name))"
    unfolding unaltered_iff by blast
  from u NoteCollection_pop_subset [of ns name]
  show "\<forall>m. fst (NoteCollection_pop ns name) = Inr (Some m) \<longrightarrow> sharpness m = ''''"
    unfolding unaltered_iff by blast
next
  assume "unaltered ns"
  then show "unaltered (fst (NoteCollection_extract ns))"
    and "unaltered (snd (NoteCollection_extract ns))"
    by (simp_all add: NoteCollection_extract_def unaltered_def)
next
  assume "unaltered (a # b # (case t of None \<Rightarrow> [] | Some c \<Rightarrow> [c])) \<and>
    Chord_init a b name t = Inr ch"
  then show "unaltered (notes ch)"
    using Chord_init_notes [of a b name t ch] unfolding unaltered_iff by blast
next
  assume "(\<forall>c\<in>set cs. unaltered (notes c)) \<and> unaltered (notes chord)"
  then show "\<forall>c\<in>set (snd (Chords_add h cs chord)). unaltered (notes c)"
    using Chords_add_state [of h cs chord] by auto
next
  assume "(\<forall>c\<in>set cs. unaltered (notes c)) \<and> Chords_get cs a b t = Some ch"
  then show "unaltered (notes ch)"
    using Chords_get_member [of cs a b t ch] by blast
qed

theorem sharpness_always_empty_witness:
  "sharpness (Note_init ''eb'') = '''' \<and>
   sharpness (Note_init ''A#'') = '''' \<and> sharpness (Note_init ''Bb'') = '''' \<and>
   note_eq (Note_init ''A#'') (Note_init ''Bb'') = Inr True \<and>
   note_eq (Note_init ''Bb'') (Note_init ''A#'') = Inr True \<and>
   unaltered [Note_init ''C''] \<and>
   unaltered (snd (NoteCollection_add [Note_init ''C''] (Note_init ''A#'')))"
proof -
  have s: "sharpness (Note_init ''A#'') = '''' \<and> sharpness (Note_init ''Bb'') = ''''"
    "unaltered [Note_init ''C''] \<and> sharpness (Note_init ''A#'') = ''''"
    by (simp_all add: Note_init_simps unaltered_def)
  note t = sharpness_always_empty [of "''eb''" "Note_init ''A#''" "Note_init ''Bb''"
      "[Note_init ''C'']" "Note_init ''A#''"]
  from t have 1: "sharpness (Note_init ''eb'') = ''''"
    by (rule conjunct1)
  from t s(1) have 2: "note_eq (Note_init ''A#'') (Note_init ''Bb'') = note_eq (Note_init ''Bb'') (Note_init ''A#'')"
    by blast
  from t s(2) have 3: "unaltered (snd (NoteCollection_add [Note_init ''C''] (Note_init ''A#'')))"
    by blast
  from 1 2 3 s enharmonic_note_eq(1) show ?thesis
    by simp
qed

section \<open>The examples of the source\<close>

text \<open>The calls of the two \<open>__main__\<close> blocks of \<open>notes.py\<close> and the results their comments
  give.\<close>

lemma Note_init_source:
  "Note_init ''a'' = \<lparr>note = ''A'', sharpness = ''''\<rparr>"
  "Note_init ''b'' = \<lparr>note = ''B'', sharpness = ''''\<rparr>"
  "Note_init ''e'' = \<lparr>note = ''E'', sharpness = ''''\<rparr>"
  "Note_init ''Eb'' = \<lparr>note = ''Eb'', sharpness = ''''\<rparr>"
  "Note_init ''c#'' = \<lparr>note = ''C#'', sharpness = ''''\<rparr>"
  "Note_init ''d#'' = \<lparr>note = ''D#'', sharpness = ''''\<rparr>"
  by (simp_all add: Note_init_def capitalize_def upper_char_def lower_char_def
      ascii_uppercase_def ascii_lowercase_def)

lemma get_index_source:
  "get_index \<lparr>note = ''A'', sharpness = ''''\<rparr> = Inr 0"
  "get_index \<lparr>note = ''Eb'', sharpness = ''''\<rparr> = Inr (7 / 2)"
  by (simp_all add: get_index_def ascii_uppercase_def)

lemma source_collection:
  "NoteCollection_add [] (Note_init ''a'') = (Inr (), [Note_init ''a''])"
  "NoteCollection_add [Note_init ''a''] (Note_init ''C'') =
     (Inr (), [Note_init ''a'', Note_init ''C''])"
  "NoteCollection_extract [Note_init ''a'', Note_init ''C''] =
     ([Note_init ''a'', Note_init ''C''], [])"
  "NoteCollection_extract [] = ([], [])"
  "NoteCollection_pop [Note_init ''a'', Note_init ''C'', Note_init ''Eb''] ''a'' =
     (Inr (Some (Note_init ''a'')), [Note_init ''C'', Note_init ''Eb''])"
  "NoteCollection_pop [Note_init ''C'', Note_init ''Eb''] ''Eb'' =
     (Inr (Some (Note_init ''Eb'')), [Note_init ''C''])"
  by (simp_all add: NoteCollection_add_def NoteCollection_extract_def note_eq_def
      Note_init_source Note_init_ex get_index_source get_index_ex)

lemma source_chords:
  "Chord_init (Note_init ''c#'') (Note_init ''d#'') ''c#5'' None =
     Inr \<lparr>notes = [Note_init ''c#'', Note_init ''d#''], chord_name = ''c#5''\<rparr>"
  "Chords_get
     [\<lparr>notes = [Note_init ''A'', Note_init ''B'', Note_init ''C''], chord_name = ''Amaj''\<rparr>,
      \<lparr>notes = [Note_init ''c#'', Note_init ''d#''], chord_name = ''c#5''\<rparr>]
     (Note_init ''C#'') (Note_init ''d#'') None =
     Some \<lparr>notes = [Note_init ''c#'', Note_init ''d#''], chord_name = ''c#5''\<rparr>"
  "Chords_get
     [\<lparr>notes = [Note_init ''A'', Note_init ''C#'', Note_init ''E''], chord_name = ''Amaj''\<rparr>,
      \<lparr>notes = [Note_init ''B'', Note_init ''E'', Note_init ''G''], chord_name = ''Emin''\<rparr>,
      \<lparr>notes = [Note_init ''B'', Note_init ''E''], chord_name = ''E5''\<rparr>]
     (Note_init ''e'') (Note_init ''b'') None =
     Some \<lparr>notes = [Note_init ''B'', Note_init ''E''], chord_name = ''E5''\<rparr>"
  by (simp_all add: Chord_init_def Chords_get_def note_names_set_def Note_init_source
      Note_init_driver Note_init_ex set_eq_subset)

end
